theory Spec2Isabelle
  imports Main
begin

section \<open>The gallery lightbox of \<open>assets/js/gallery.js\<close>\<close>

text \<open>
  The class \<open>Lightbox\<close> is a small state machine over its own fields and a handful of
  DOM objects. The embedding keeps the fields of the class under their names and adds, as
  further fields of the same record, the parts of the host document that the methods read
  or write: the element holding input focus, the overlay's \<open>active\<close> class, the inline
  styles the code sets, the rendered image and caption, the page elements that have been
  detached from the document, and the text of the element with id
  \<open>lightbox-live-region\<close> (absent until \<open>announce\<close> creates it).

  JavaScript numbers are modelled as \<open>int\<close>: every index the code computes is an
  integer far below \<open>2^53\<close>. The remainder operator \<open>%\<close> truncates towards zero and is
  written out as \<open>js_rem\<close>.
\<close>

subsection \<open>Data\<close>

text \<open>An entry of the \<open>images\<close> array, as built by \<open>initGallery\<close>: \<open>{src, alt}\<close>.\<close>

record image =
  src :: string
  alt :: string

text \<open>
  The elements that can hold input focus: the document body (what
  \<open>document.activeElement\<close> is when nothing else is focused), the three buttons that
  \<open>createLightbox\<close> puts into the overlay, and the other elements of the page,
  numbered.
\<close>

datatype element = Body | CloseBtn | PrevBtn | NextBtn | PageElement nat

record lightbox =
  images :: "image list"
  currentIndex :: int
  isOpen :: bool
  focusedElementBeforeOpen :: "element option"
  lightboxActive :: bool
  lightboxImage_src :: string
  lightboxImage_alt :: string
  lightboxCaption :: string
  prevBtn_display :: string
  nextBtn_display :: string
  body_overflow :: string
  activeElement :: "element option"
  detached :: "nat list"
  liveRegion :: "string option"

text \<open>A \<open>keydown\<close> event, as far as \<open>handleKeydown\<close> and \<open>trapFocus\<close> read it.\<close>

record key_event =
  key :: string
  shiftKey :: bool

subsection \<open>JavaScript primitives\<close>

text \<open>\<open>a % b\<close> on integers: the sign of the result is the sign of \<open>a\<close>.\<close>

definition js_rem :: "int \<Rightarrow> int \<Rightarrow> int" where
  "js_rem a b = sgn a * (\<bar>a\<bar> mod \<bar>b\<bar>)"

text \<open>The decimal text of an integer, as a template literal produces it.\<close>

fun string_of_nat :: "nat \<Rightarrow> string" where
  "string_of_nat n =
     (if n < 10 then [''0123456789'' ! n]
      else string_of_nat (n div 10) @ [''0123456789'' ! (n mod 10)])"

declare string_of_nat.simps [simp del]

definition toString :: "int \<Rightarrow> string" where
  "toString i = (if i < 0 then CHR ''-'' # string_of_nat (nat (- i)) else string_of_nat (nat i))"

text \<open>
  \<open>xs[i]\<close> on an array: \<open>undefined\<close> (here \<open>None\<close>) outside \<open>0 .. length - 1\<close>.
\<close>

definition js_index :: "'a list \<Rightarrow> int \<Rightarrow> 'a option" where
  "js_index xs i = (if 0 \<le> i \<and> i < int (length xs) then Some (xs ! nat i) else None)"

text \<open>\<open>s || d\<close> on strings: the empty string is falsy.\<close>

definition or_else :: "string \<Rightarrow> string \<Rightarrow> string" where
  "or_else s d = (if s = [] then d else s)"

subsection \<open>Focus\<close>

text \<open>
  \<open>el.focus()\<close> moves input focus to \<open>el\<close> when \<open>el\<close> can take it and does nothing
  otherwise. A button whose inline \<open>display\<close> is \<open>none\<close> cannot; neither can the body
  or a page element that is no longer attached to the document.
\<close>

definition can_focus :: "lightbox \<Rightarrow> element \<Rightarrow> bool" where
  "can_focus s e =
     (case e of
        Body \<Rightarrow> False
      | CloseBtn \<Rightarrow> True
      | PrevBtn \<Rightarrow> prevBtn_display s \<noteq> ''none''
      | NextBtn \<Rightarrow> nextBtn_display s \<noteq> ''none''
      | PageElement k \<Rightarrow> k \<notin> set (detached s))"

definition focus :: "element \<Rightarrow> lightbox \<Rightarrow> lightbox" where
  "focus e s = (if can_focus s e then s\<lparr>activeElement := Some e\<rparr> else s)"

subsection \<open>The methods of \<open>Lightbox\<close>\<close>

text \<open>
  The constructor with \<open>createLightbox\<close>: the fields of a fresh instance. The arguments
  are what the page supplies: the focused element and the detached elements.
\<close>

definition constructor :: "element option \<Rightarrow> nat list \<Rightarrow> lightbox" where
  "constructor a d =
     \<lparr>images = [], currentIndex = 0, isOpen = False, focusedElementBeforeOpen = None,
      lightboxActive = False, lightboxImage_src = [], lightboxImage_alt = [],
      lightboxCaption = [], prevBtn_display = [], nextBtn_display = [],
      body_overflow = [], activeElement = a, detached = d, liveRegion = None\<rparr>"

text \<open>
  \<open>this.focusableElements = lightbox.querySelectorAll('button')\<close>: a static list, taken
  once in \<open>createLightbox\<close>, in document order.
\<close>

definition focusableElements :: "element list" where
  "focusableElements = [CloseBtn, PrevBtn, NextBtn]"

text \<open>
  \<open>announce\<close>: look the live region up, create it (empty) when it is missing, then
  assign its text.
\<close>

definition announce :: "string \<Rightarrow> lightbox \<Rightarrow> lightbox" where
  "announce message s =
     (let s1 = (case liveRegion s of None \<Rightarrow> s\<lparr>liveRegion := Some []\<rparr> | Some _ \<Rightarrow> s)
      in s1\<lparr>liveRegion := Some message\<rparr>)"

definition updateImage :: "lightbox \<Rightarrow> lightbox" where
  "updateImage s =
     (case js_index (images s) (currentIndex s) of
        None \<Rightarrow> s
      | Some img \<Rightarrow>
          announce
            (''Image '' @ toString (currentIndex s + 1) @ '' of ''
               @ toString (int (length (images s))) @ '': ''
               @ or_else (alt img) ''No description'')
            (s\<lparr>lightboxImage_src := src img,
               lightboxImage_alt :=
                 or_else (alt img)
                   (''Image '' @ toString (currentIndex s + 1) @ '' of ''
                      @ toString (int (length (images s)))),
               lightboxCaption := or_else (alt img) []\<rparr>))"

definition updateNavVisibility :: "lightbox \<Rightarrow> lightbox" where
  "updateNavVisibility s =
     (let hidden = length (images s) \<le> 1
      in s\<lparr>prevBtn_display := (if hidden then ''none'' else ''flex''),
            nextBtn_display := (if hidden then ''none'' else ''flex'')\<rparr>)"

text \<open>
  \<open>open(images, startIndex = 0)\<close>; a call without the second argument is a call with
  \<open>0\<close>. (\<open>open\<close> and \<open>next\<close> are reserved words of the theory language, hence the
  suffix on these two.)
\<close>

definition open_lightbox :: "image list \<Rightarrow> int \<Rightarrow> lightbox \<Rightarrow> lightbox" where
  "open_lightbox imgs startIndex s =
     (let s1 = s\<lparr>images := imgs, currentIndex := startIndex\<rparr>;
          s2 = s1\<lparr>focusedElementBeforeOpen := activeElement s1\<rparr>;
          s3 = updateImage s2;
          s4 = s3\<lparr>lightboxActive := True, isOpen := True\<rparr>;
          s5 = s4\<lparr>body_overflow := ''hidden''\<rparr>;
          s6 = focus CloseBtn s5
      in updateNavVisibility s6)"

definition close :: "lightbox \<Rightarrow> lightbox" where
  "close s =
     (let s1 = s\<lparr>lightboxActive := False, isOpen := False\<rparr>;
          s2 = s1\<lparr>body_overflow := []\<rparr>
      in case focusedElementBeforeOpen s2 of
           None \<Rightarrow> s2
         | Some e \<Rightarrow> focus e s2)"

definition prev :: "lightbox \<Rightarrow> lightbox" where
  "prev s =
     (if length (images s) \<le> 1 then s
      else updateImage
             (s\<lparr>currentIndex :=
                  js_rem (currentIndex s - 1 + int (length (images s)))
                         (int (length (images s)))\<rparr>))"

definition next_lightbox :: "lightbox \<Rightarrow> lightbox" where
  "next_lightbox s =
     (if length (images s) \<le> 1 then s
      else updateImage
             (s\<lparr>currentIndex :=
                  js_rem (currentIndex s + 1) (int (length (images s)))\<rparr>))"

text \<open>
  \<open>trapFocus\<close> and \<open>handleKeydown\<close> also decide whether the event's default action is
  suppressed: the second component of the result is \<open>True\<close> when \<open>e.preventDefault()\<close>
  was called.
\<close>

definition trapFocus :: "key_event \<Rightarrow> lightbox \<Rightarrow> lightbox \<times> bool" where
  "trapFocus e s =
     (let firstFocusable = focusableElements ! 0;
          lastFocusable = focusableElements ! (length focusableElements - 1)
      in if shiftKey e then
           (if activeElement s = Some firstFocusable then (focus lastFocusable s, True)
            else (s, False))
         else
           (if activeElement s = Some lastFocusable then (focus firstFocusable s, True)
            else (s, False)))"

definition handleKeydown :: "key_event \<Rightarrow> lightbox \<Rightarrow> lightbox \<times> bool" where
  "handleKeydown e s =
     (if \<not> isOpen s then (s, False)
      else if key e = ''Escape'' then (close s, True)
      else if key e = ''ArrowLeft'' then (prev s, True)
      else if key e = ''ArrowRight'' then (next_lightbox s, True)
      else if key e = ''Tab'' then trapFocus e s
      else (s, False))"

subsection \<open>Calls and runs\<close>

text \<open>
  What can happen to a viewer: a call of \<open>open\<close> (from a gallery entry), the three
  click handlers of \<open>bindEvents\<close> (close button or backdrop, previous, next) and a
  \<open>keydown\<close> event on the document. A run applies a sequence of them in order.
\<close>

datatype call = Open "image list" int | Close | Prev | Next | Keydown key_event

fun step :: "call \<Rightarrow> lightbox \<Rightarrow> lightbox" where
  "step (Open imgs startIndex) s = open_lightbox imgs startIndex s"
| "step Close s = close s"
| "step Prev s = prev s"
| "step Next s = next_lightbox s"
| "step (Keydown e) s = fst (handleKeydown e s)"

definition run :: "call list \<Rightarrow> lightbox \<Rightarrow> lightbox" where
  "run cs s = fold step cs s"

text \<open>
  A call respects the precondition of \<open>open\<close> when its start index lies within a
  non-empty image list; the other calls have no precondition.
\<close>

fun valid_call :: "call \<Rightarrow> bool" where
  "valid_call (Open imgs startIndex) =
     (imgs = [] \<or> (0 \<le> startIndex \<and> startIndex < int (length imgs)))"
| "valid_call _ = True"

text \<open>The index invariant of the data model.\<close>

definition index_valid :: "lightbox \<Rightarrow> bool" where
  "index_valid s =
     (isOpen s \<and> images s \<noteq> [] \<longrightarrow>
        0 \<le> currentIndex s \<and> currentIndex s < int (length (images s)))"

subsection \<open>The specification's formulations\<close>

text \<open>
  Three definitions that follow the wording of the specification, not the code, to be
  compared with the code: the status text \<open>Image {currentIndex+1} of {items.length}:
  {description or 'No description'}\<close>; the focus ring \<open>close, previous, next\<close> with
  previous and next absent when \<open>items.length <= 1\<close>; and the focus trap over that
  ring (backward from the first control goes to the last, forward from the last goes to
  the first, both suppressing the default; anything else passes through).
\<close>

definition spec_status :: "int \<Rightarrow> nat \<Rightarrow> string \<Rightarrow> string" where
  "spec_status i n description =
     ''Image '' @ toString (i + 1) @ '' of '' @ toString (int n) @ '': ''
       @ (if description = [] then ''No description'' else description)"

definition spec_focus_ring :: "lightbox \<Rightarrow> element list" where
  "spec_focus_ring s =
     (if length (images s) \<le> 1 then [CloseBtn] else [CloseBtn, PrevBtn, NextBtn])"

definition spec_trapFocus :: "key_event \<Rightarrow> lightbox \<Rightarrow> lightbox \<times> bool" where
  "spec_trapFocus e s =
     (let ring = spec_focus_ring s
      in if shiftKey e \<and> activeElement s = Some (hd ring) then (focus (last ring) s, True)
         else if \<not> shiftKey e \<and> activeElement s = Some (last ring) then (focus (hd ring) s, True)
         else (s, False))"

subsection \<open>Example data\<close>

text \<open>
  A gallery of three described images, a gallery of one, and a freshly constructed viewer
  on a page whose element 0 holds the focus.
\<close>

definition gallery3 :: "image list" where
  "gallery3 = [\<lparr>src = ''a.jpg'', alt = ''A''\<rparr>, \<lparr>src = ''b.jpg'', alt = ''B''\<rparr>,
               \<lparr>src = ''c.jpg'', alt = ''C''\<rparr>]"

definition gallery1 :: "image list" where
  "gallery1 = [\<lparr>src = ''a.jpg'', alt = ''A''\<rparr>]"

definition fresh :: lightbox where
  "fresh = constructor (Some (PageElement 0)) []"

definition tab_key :: "bool \<Rightarrow> key_event" where
  "tab_key shift = \<lparr>key = ''Tab'', shiftKey = shift\<rparr>"

section \<open>Basic facts: what each method sets and what it leaves alone\<close>

lemma js_rem_nonneg: "0 \<le> a \<Longrightarrow> 0 < b \<Longrightarrow> js_rem a b = a mod b"
  by (cases "a = 0") (simp_all add: js_rem_def)

lemma announce_liveRegion: "liveRegion (announce m s) = Some m"
  by (simp add: announce_def Let_def split: option.splits)

lemma announce_frame:
  "images (announce m s) = images s"
  "currentIndex (announce m s) = currentIndex s"
  "isOpen (announce m s) = isOpen s"
  "focusedElementBeforeOpen (announce m s) = focusedElementBeforeOpen s"
  "activeElement (announce m s) = activeElement s"
  "prevBtn_display (announce m s) = prevBtn_display s"
  "nextBtn_display (announce m s) = nextBtn_display s"
  "detached (announce m s) = detached s"
  "lightboxActive (announce m s) = lightboxActive s"
  "body_overflow (announce m s) = body_overflow s"
  by (simp_all add: announce_def Let_def split: option.splits)

lemma updateImage_frame:
  "images (updateImage s) = images s"
  "currentIndex (updateImage s) = currentIndex s"
  "isOpen (updateImage s) = isOpen s"
  "focusedElementBeforeOpen (updateImage s) = focusedElementBeforeOpen s"
  "activeElement (updateImage s) = activeElement s"
  "prevBtn_display (updateImage s) = prevBtn_display s"
  "nextBtn_display (updateImage s) = nextBtn_display s"
  "detached (updateImage s) = detached s"
  "lightboxActive (updateImage s) = lightboxActive s"
  "body_overflow (updateImage s) = body_overflow s"
  by (simp_all add: updateImage_def announce_frame split: option.splits)

lemma updateImage_undefined:
  "js_index (images s) (currentIndex s) = None \<Longrightarrow> updateImage s = s"
  by (simp add: updateImage_def)

lemma focus_frame:
  "images (focus e s) = images s"
  "currentIndex (focus e s) = currentIndex s"
  "isOpen (focus e s) = isOpen s"
  "focusedElementBeforeOpen (focus e s) = focusedElementBeforeOpen s"
  "prevBtn_display (focus e s) = prevBtn_display s"
  "nextBtn_display (focus e s) = nextBtn_display s"
  "detached (focus e s) = detached s"
  "lightboxActive (focus e s) = lightboxActive s"
  "body_overflow (focus e s) = body_overflow s"
  "liveRegion (focus e s) = liveRegion s"
  "lightboxImage_src (focus e s) = lightboxImage_src s"
  "lightboxImage_alt (focus e s) = lightboxImage_alt s"
  "lightboxCaption (focus e s) = lightboxCaption s"
  by (simp_all add: focus_def)

lemma focus_CloseBtn: "activeElement (focus CloseBtn s) = Some CloseBtn"
  by (simp add: focus_def can_focus_def)

lemma open_fields:
  "images (open_lightbox imgs i s) = imgs"
  "currentIndex (open_lightbox imgs i s) = i"
  "isOpen (open_lightbox imgs i s) = True"
  "lightboxActive (open_lightbox imgs i s) = True"
  "focusedElementBeforeOpen (open_lightbox imgs i s) = activeElement s"
  "activeElement (open_lightbox imgs i s) = Some CloseBtn"
  "body_overflow (open_lightbox imgs i s) = ''hidden''"
  "detached (open_lightbox imgs i s) = detached s"
  by (simp_all add: open_lightbox_def Let_def updateNavVisibility_def focus_frame
      focus_CloseBtn updateImage_frame)

lemma close_fields:
  "images (close s) = images s"
  "currentIndex (close s) = currentIndex s"
  "isOpen (close s) = False"
  "lightboxActive (close s) = False"
  "focusedElementBeforeOpen (close s) = focusedElementBeforeOpen s"
  "body_overflow (close s) = []"
  "liveRegion (close s) = liveRegion s"
  by (simp_all add: close_def Let_def focus_frame split: option.splits)

lemma prev_fields:
  "images (prev s) = images s"
  "isOpen (prev s) = isOpen s"
  "currentIndex (prev s) =
     (if length (images s) \<le> 1 then currentIndex s
      else js_rem (currentIndex s - 1 + int (length (images s))) (int (length (images s))))"
  by (simp_all add: prev_def updateImage_frame)

lemma next_fields:
  "images (next_lightbox s) = images s"
  "isOpen (next_lightbox s) = isOpen s"
  "currentIndex (next_lightbox s) =
     (if length (images s) \<le> 1 then currentIndex s
      else js_rem (currentIndex s + 1) (int (length (images s))))"
  by (simp_all add: next_lightbox_def updateImage_frame)

lemma open_display:
  "prevBtn_display (open_lightbox imgs i s) = (if length imgs \<le> 1 then ''none'' else ''flex'')"
  "nextBtn_display (open_lightbox imgs i s) = (if length imgs \<le> 1 then ''none'' else ''flex'')"
  by (simp_all add: open_lightbox_def Let_def updateNavVisibility_def focus_frame
      updateImage_frame)

lemma focus_same: "activeElement s = Some e \<Longrightarrow> focus e s = s"
  by (simp add: focus_def)

lemma close_activeElement:
  "activeElement (close s) =
     (case focusedElementBeforeOpen s of
        None \<Rightarrow> activeElement s
      | Some e \<Rightarrow> if can_focus s e then Some e else activeElement s)"
  by (simp add: close_def Let_def focus_def can_focus_def split: option.splits element.splits)

lemma open_render_skipped:
  assumes "i < 0 \<or> int (length imgs) \<le> i"
  shows "liveRegion (open_lightbox imgs i s) = liveRegion s
     \<and> lightboxImage_src (open_lightbox imgs i s) = lightboxImage_src s
     \<and> lightboxImage_alt (open_lightbox imgs i s) = lightboxImage_alt s
     \<and> lightboxCaption (open_lightbox imgs i s) = lightboxCaption s"
proof -
  have "updateImage (s\<lparr>images := imgs, currentIndex := i,
          focusedElementBeforeOpen := activeElement s\<rparr>)
        = s\<lparr>images := imgs, currentIndex := i, focusedElementBeforeOpen := activeElement s\<rparr>"
    using assms by (intro updateImage_undefined) (auto simp: js_index_def)
  then show ?thesis
    by (simp add: open_lightbox_def Let_def updateNavVisibility_def focus_frame)
qed

lemma js_rem_range: "0 \<le> a \<Longrightarrow> 0 < b \<Longrightarrow> 0 \<le> js_rem a b \<and> js_rem a b < b"
  by (simp add: js_rem_nonneg)

lemma trapFocus_frame:
  "images (fst (trapFocus e s)) = images s"
  "currentIndex (fst (trapFocus e s)) = currentIndex s"
  "isOpen (fst (trapFocus e s)) = isOpen s"
  by (simp_all add: trapFocus_def Let_def focus_frame)

section \<open>Navigation on short galleries\<close>

text \<open>
  C7. With at most one image, \<open>next()\<close> and \<open>prev()\<close> change nothing at all: the index,
  the rendered image and caption and the live region (so no announcement) are as before.
\<close>

theorem nav_noop_short:
  "length (images s) \<le> 1 \<Longrightarrow> next_lightbox s = s \<and> prev s = s"
  by (simp add: next_lightbox_def prev_def)

theorem nav_noop_short_witness:
  "length (images (open_lightbox gallery1 0 fresh)) \<le> 1
   \<and> next_lightbox (open_lightbox gallery1 0 fresh) = open_lightbox gallery1 0 fresh
   \<and> prev (open_lightbox gallery1 0 fresh) = open_lightbox gallery1 0 fresh"
  using nav_noop_short [of "open_lightbox gallery1 0 fresh"]
  by (simp add: open_fields gallery1_def)

section \<open>Keyboard input while closed\<close>

text \<open>
  C10. While \<open>isOpen\<close> is false, \<open>handleKeydown\<close> returns at once: whatever the key,
  the whole state (fields of the viewer, focus, live region) is unchanged and the event's
  default action is not suppressed.
\<close>

theorem keydown_closed:
  "\<not> isOpen s \<Longrightarrow> handleKeydown e s = (s, False)"
  by (simp add: handleKeydown_def)

theorem keydown_closed_witness:
  "\<not> isOpen fresh
   \<and> handleKeydown \<lparr>key = ''Escape'', shiftKey = False\<rparr> fresh = (fresh, False)"
  using keydown_closed [of fresh "\<lparr>key = ''Escape'', shiftKey = False\<rparr>"]
  by (simp add: fresh_def constructor_def)

section \<open>Wraparound navigation\<close>

text \<open>
  With at least two images and a valid index, \<open>k\<close> calls of \<open>next()\<close> add \<open>k\<close> to the
  index modulo the number of images, and \<open>k\<close> calls of \<open>prev()\<close> subtract it.
\<close>

lemma next_iter:
  assumes "2 \<le> length (images s)" "0 \<le> currentIndex s"
    "currentIndex s < int (length (images s))"
  shows "images ((next_lightbox ^^ k) s) = images s \<and>
         currentIndex ((next_lightbox ^^ k) s) = (currentIndex s + int k) mod int (length (images s))"
proof (induction k)
  case 0
  then show ?case using assms by simp
next
  case (Suc k)
  let ?n = "int (length (images s))"
  let ?t = "(next_lightbox ^^ k) s"
  have im: "images ?t = images s"
    and ci: "currentIndex ?t = (currentIndex s + int k) mod ?n"
    using Suc by simp_all
  have npos: "0 < ?n" using assms(1) by (cases "images s") simp_all
  have nn: "0 \<le> currentIndex ?t"
    unfolding ci using npos by simp
  have len: "\<not> length (images ?t) \<le> 1" using assms(1) im by simp
  have "currentIndex (next_lightbox ?t) = js_rem (currentIndex ?t + 1) ?n"
    using len im by (simp add: next_fields)
  also have "\<dots> = (currentIndex ?t + 1) mod ?n"
    using nn npos by (intro js_rem_nonneg) simp_all
  also have "\<dots> = (currentIndex s + int k + 1) mod ?n"
    unfolding ci by (rule mod_add_left_eq)
  finally have "currentIndex (next_lightbox ?t) = (currentIndex s + int (Suc k)) mod ?n"
    by (simp add: ac_simps)
  moreover have "images (next_lightbox ?t) = images s"
    using im by (simp add: next_fields)
  ultimately show ?case by simp
qed

lemma prev_iter:
  assumes "2 \<le> length (images s)" "0 \<le> currentIndex s"
    "currentIndex s < int (length (images s))"
  shows "images ((prev ^^ k) s) = images s \<and>
         currentIndex ((prev ^^ k) s) = (currentIndex s - int k) mod int (length (images s))"
proof (induction k)
  case 0
  then show ?case using assms by simp
next
  case (Suc k)
  let ?n = "int (length (images s))"
  let ?t = "(prev ^^ k) s"
  have im: "images ?t = images s"
    and ci: "currentIndex ?t = (currentIndex s - int k) mod ?n"
    using Suc by simp_all
  have npos: "0 < ?n" using assms(1) by (cases "images s") simp_all
  have nn: "0 \<le> currentIndex ?t"
    unfolding ci using npos by simp
  have lt: "currentIndex ?t < ?n"
    unfolding ci using npos by simp
  have len: "\<not> length (images ?t) \<le> 1" using assms(1) im by simp
  have "currentIndex (prev ?t) = js_rem (currentIndex ?t - 1 + ?n) ?n"
    using len im by (simp add: prev_fields)
  also have "\<dots> = (currentIndex ?t - 1 + ?n) mod ?n"
    using nn npos assms(1) by (intro js_rem_nonneg) simp_all
  also have "\<dots> = (currentIndex ?t - 1) mod ?n"
    by simp
  also have "\<dots> = (currentIndex s - int k - 1) mod ?n"
    unfolding ci by (rule mod_diff_left_eq)
  finally have "currentIndex (prev ?t) = (currentIndex s - int (Suc k)) mod ?n"
    by (simp add: algebra_simps)
  moreover have "images (prev ?t) = images s"
    using im by (simp add: prev_fields)
  ultimately show ?case by simp
qed

text \<open>
  C5. For a gallery of \<open>n \<ge> 2\<close> images and a current index in \<open>[0, n)\<close>, calling
  \<open>next()\<close> exactly \<open>n\<close> times brings the index back to where it was, and so does
  calling \<open>prev()\<close> exactly \<open>n\<close> times.
\<close>

theorem cyclic_closure:
  assumes "2 \<le> length (images s)" "0 \<le> currentIndex s"
    "currentIndex s < int (length (images s))"
  shows "currentIndex ((next_lightbox ^^ length (images s)) s) = currentIndex s
       \<and> currentIndex ((prev ^^ length (images s)) s) = currentIndex s"
  using next_iter [OF assms, of "length (images s)"]
    prev_iter [OF assms, of "length (images s)"] assms
  by simp

theorem cyclic_closure_witness:
  "2 \<le> length (images (open_lightbox gallery3 1 fresh))
   \<and> 0 \<le> currentIndex (open_lightbox gallery3 1 fresh)
   \<and> currentIndex (open_lightbox gallery3 1 fresh)
       < int (length (images (open_lightbox gallery3 1 fresh)))
   \<and> currentIndex ((next_lightbox ^^ 3) (open_lightbox gallery3 1 fresh)) = 1
   \<and> currentIndex ((prev ^^ 3) (open_lightbox gallery3 1 fresh)) = 1"
  using cyclic_closure [of "open_lightbox gallery3 1 fresh"]
  by (simp add: open_fields gallery3_def numeral_3_eq_3)


section \<open>The index invariant\<close>

text \<open>
  \<open>open\<close> stores its start index as it is given. The invariant therefore depends on
  the caller: it holds after \<open>open\<close> exactly when the start index was in range, and
  \<open>close\<close>, \<open>prev\<close>, \<open>next\<close> and the keyboard handler keep it.
\<close>

lemma index_valid_open:
  "valid_call (Open imgs i) \<Longrightarrow> index_valid (open_lightbox imgs i s)"
  by (auto simp: index_valid_def open_fields)

lemma index_valid_close: "index_valid (close s)"
  by (simp add: index_valid_def close_fields)

lemma index_valid_next:
  assumes "index_valid s"
  shows "index_valid (next_lightbox s)"
proof (cases "length (images s) \<le> 1 \<or> \<not> isOpen s")
  case True
  then show ?thesis using assms
    by (auto simp: index_valid_def next_fields)
next
  case False
  then have n: "0 < int (length (images s))" and ne: "images s \<noteq> []" by auto
  from False ne assms have "0 \<le> currentIndex s + 1" by (simp add: index_valid_def)
  from js_rem_range [OF this n] False show ?thesis
    by (simp add: index_valid_def next_fields)
qed

lemma index_valid_prev:
  assumes "index_valid s"
  shows "index_valid (prev s)"
proof (cases "length (images s) \<le> 1 \<or> \<not> isOpen s")
  case True
  then show ?thesis using assms
    by (auto simp: index_valid_def prev_fields)
next
  case False
  then have n: "0 < int (length (images s))" and ne: "images s \<noteq> []" by auto
  from False ne assms have "0 \<le> currentIndex s - 1 + int (length (images s))"
    by (simp add: index_valid_def)
  from js_rem_range [OF this n] False show ?thesis
    by (simp add: index_valid_def prev_fields)
qed

lemma index_valid_keydown:
  assumes "index_valid s"
  shows "index_valid (fst (handleKeydown e s))"
proof -
  have "index_valid (fst (trapFocus e s))"
    using assms by (simp add: index_valid_def trapFocus_frame)
  then show ?thesis
    using assms index_valid_close [of s] index_valid_prev [of s] index_valid_next [of s]
    by (simp add: handleKeydown_def)
qed

lemma index_valid_step:
  "index_valid s \<Longrightarrow> valid_call c \<Longrightarrow> index_valid (step c s)"
  by (cases c)
    (simp_all add: index_valid_open index_valid_close index_valid_prev index_valid_next
      index_valid_keydown del: valid_call.simps)

lemma index_valid_run_from:
  "index_valid s \<Longrightarrow> list_all valid_call cs \<Longrightarrow> index_valid (run cs s)"
  unfolding run_def
  by (induction cs arbitrary: s) (simp_all add: index_valid_step)

text \<open>
  Counterexample to C1 as stated (any caller-supplied arguments): opening a gallery of
  three at start index 3 leaves the viewer open on a non-empty list with an index that is
  not below its length.
\<close>

theorem index_invariant_counterexample:
  "\<not> index_valid (run [Open gallery3 3] fresh)"
  by (simp add: run_def index_valid_def open_fields gallery3_def)

text \<open>
  C1, amended. In every state reached from a freshly constructed viewer by calls of
  \<open>open\<close>, \<open>close\<close>, \<open>prev\<close>, \<open>next\<close> and keyboard events, where every \<open>open\<close> with a
  non-empty list is given a start index within the list, an open viewer on a non-empty
  list has \<open>0 \<le> currentIndex < images.length\<close>.
\<close>

theorem index_valid_reachable:
  "list_all valid_call cs \<Longrightarrow> index_valid (run cs (constructor a d))"
proof -
  have "index_valid (constructor a d)"
    by (simp add: index_valid_def constructor_def)
  then show "list_all valid_call cs \<Longrightarrow> index_valid (run cs (constructor a d))"
    by (rule index_valid_run_from)
qed

theorem index_valid_reachable_witness:
  "list_all valid_call
     [Open gallery3 1, Next, Next, Keydown \<lparr>key = ''ArrowLeft'', shiftKey = False\<rparr>]
   \<and> isOpen (run [Open gallery3 1, Next, Next,
                   Keydown \<lparr>key = ''ArrowLeft'', shiftKey = False\<rparr>] fresh)
   \<and> images (run [Open gallery3 1, Next, Next,
                   Keydown \<lparr>key = ''ArrowLeft'', shiftKey = False\<rparr>] fresh) \<noteq> []
   \<and> 0 \<le> currentIndex (run [Open gallery3 1, Next, Next,
                   Keydown \<lparr>key = ''ArrowLeft'', shiftKey = False\<rparr>] fresh)
   \<and> currentIndex (run [Open gallery3 1, Next, Next,
                   Keydown \<lparr>key = ''ArrowLeft'', shiftKey = False\<rparr>] fresh) < 3"
  using index_valid_reachable
    [of "[Open gallery3 1, Next, Next, Keydown \<lparr>key = ''ArrowLeft'', shiftKey = False\<rparr>]"
      "Some (PageElement 0)" "[]"]
  by (simp add: index_valid_def fresh_def run_def handleKeydown_def open_fields next_fields
      prev_fields gallery3_def)

section \<open>Opening on an empty list\<close>

text \<open>
  Counterexample to C2 as stated: after \<open>open([], 0)\<close> on a fresh viewer \<open>isOpen\<close> is
  true.
\<close>

theorem open_empty_counterexample:
  "isOpen (open_lightbox [] 0 fresh)"
  by (simp add: open_fields)

text \<open>
  C2, amended. If \<open>open\<close> is called with an empty list, the viewer does open: \<open>isOpen\<close>
  becomes true and the overlay is made active, with \<open>images\<close> empty and \<open>currentIndex\<close>
  equal to the start index given. Nothing is rendered and nothing is announced (image,
  caption and live region are as before), and \<open>next()\<close> and \<open>prev()\<close> then change nothing.
\<close>

theorem open_empty:
  "isOpen (open_lightbox [] i s)
   \<and> lightboxActive (open_lightbox [] i s)
   \<and> images (open_lightbox [] i s) = []
   \<and> currentIndex (open_lightbox [] i s) = i
   \<and> liveRegion (open_lightbox [] i s) = liveRegion s
   \<and> lightboxImage_src (open_lightbox [] i s) = lightboxImage_src s
   \<and> lightboxImage_alt (open_lightbox [] i s) = lightboxImage_alt s
   \<and> lightboxCaption (open_lightbox [] i s) = lightboxCaption s
   \<and> next_lightbox (open_lightbox [] i s) = open_lightbox [] i s
   \<and> prev (open_lightbox [] i s) = open_lightbox [] i s"
proof -
  have render:
    "liveRegion (open_lightbox [] i s) = liveRegion s
     \<and> lightboxImage_src (open_lightbox [] i s) = lightboxImage_src s
     \<and> lightboxImage_alt (open_lightbox [] i s) = lightboxImage_alt s
     \<and> lightboxCaption (open_lightbox [] i s) = lightboxCaption s"
    by (rule open_render_skipped) (simp, linarith)
  have "next_lightbox (open_lightbox [] i s) = open_lightbox [] i s"
    "prev (open_lightbox [] i s) = open_lightbox [] i s"
    by (simp_all add: next_lightbox_def prev_def open_fields)
  with render show ?thesis by (simp add: open_fields)
qed

theorem open_empty_witness:
  "isOpen (open_lightbox [] 0 fresh) \<and> currentIndex (open_lightbox [] 0 fresh) = 0
   \<and> liveRegion (open_lightbox [] 0 fresh) = None
   \<and> next_lightbox (open_lightbox [] 0 fresh) = open_lightbox [] 0 fresh"
  using open_empty [of 0 fresh]
  by (simp add: fresh_def constructor_def)

section \<open>Opening at an index out of range\<close>

text \<open>
  Counterexample to C3 as stated: opening a gallery of three at start index 5 leaves
  \<open>currentIndex\<close> at 5, which is neither 0 nor an index of the list.
\<close>

theorem open_no_clamp_counterexample:
  "currentIndex (open_lightbox gallery3 5 fresh) = 5
   \<and> \<not> currentIndex (open_lightbox gallery3 5 fresh)
         < int (length (images (open_lightbox gallery3 5 fresh)))"
  by (simp add: open_fields gallery3_def)

text \<open>
  C3, amended. For every non-empty list and every start index below 0 or not below the
  length of the list, \<open>open\<close> does not fail and does not clamp: it opens the viewer and
  stores the start index unchanged as \<open>currentIndex\<close>; no image is rendered and nothing
  is announced.
\<close>

theorem open_out_of_range:
  assumes "imgs \<noteq> []" "startIndex < 0 \<or> int (length imgs) \<le> startIndex"
  shows "currentIndex (open_lightbox imgs startIndex s) = startIndex
     \<and> isOpen (open_lightbox imgs startIndex s)
     \<and> images (open_lightbox imgs startIndex s) = imgs
     \<and> liveRegion (open_lightbox imgs startIndex s) = liveRegion s
     \<and> lightboxImage_src (open_lightbox imgs startIndex s) = lightboxImage_src s
     \<and> lightboxCaption (open_lightbox imgs startIndex s) = lightboxCaption s"
  using open_render_skipped [OF assms(2), of s] by (simp add: open_fields)

theorem open_out_of_range_witness:
  "gallery3 \<noteq> [] \<and> ((-1::int) < 0 \<or> int (length gallery3) \<le> -1)
   \<and> currentIndex (open_lightbox gallery3 (-1) fresh) = -1
   \<and> isOpen (open_lightbox gallery3 (-1) fresh)
   \<and> liveRegion (open_lightbox gallery3 (-1) fresh) = None
   \<and> lightboxImage_src (open_lightbox gallery3 (-1) fresh) = []"
  using open_out_of_range [of gallery3 "-1" fresh]
  by (simp add: gallery3_def fresh_def constructor_def)

section \<open>The focus trap\<close>

text \<open>
  C4. The ring that \<open>trapFocus\<close> works on is the list of buttons taken at construction,
  whatever is visible. With a single image the previous and next buttons are hidden and
  the focus is on the close button; a forward Tab there is left to the browser (the handler
  neither redirects the focus nor suppresses the default), whereas a trap over the visible
  controls, whose ring is the close button alone, keeps the focus on the close button and
  suppresses the default.
\<close>

theorem trapFocus_single_image:
  "handleKeydown (tab_key False) (open_lightbox [img] 0 s) = (open_lightbox [img] 0 s, False)
   \<and> spec_trapFocus (tab_key False) (open_lightbox [img] 0 s) = (open_lightbox [img] 0 s, True)
   \<and> spec_focus_ring (open_lightbox [img] 0 s) = [CloseBtn]
   \<and> focusableElements = [CloseBtn, PrevBtn, NextBtn]
   \<and> \<not> can_focus (open_lightbox [img] 0 s) PrevBtn
   \<and> \<not> can_focus (open_lightbox [img] 0 s) NextBtn"
proof -
  let ?t = "open_lightbox [img] 0 s"
  have disp: "prevBtn_display ?t = ''none''" "nextBtn_display ?t = ''none''"
    by (simp_all add: open_display)
  have foc: "focus CloseBtn ?t = ?t"
    by (rule focus_same) (simp add: open_fields)
  have "handleKeydown (tab_key False) ?t = (?t, False)"
    by (simp add: handleKeydown_def tab_key_def trapFocus_def focusableElements_def
        open_fields)
  moreover have "spec_trapFocus (tab_key False) ?t = (?t, True)"
    using foc by (simp add: spec_trapFocus_def spec_focus_ring_def tab_key_def open_fields)
  ultimately show ?thesis
    using disp by (simp add: spec_focus_ring_def open_fields focusableElements_def can_focus_def)
qed

section \<open>The prior-focus reference\<close>

text \<open>
  Counterexample to C6 as stated: after opening from page element 0 and closing, the
  stored reference is still page element 0.
\<close>

theorem close_keeps_reference_counterexample:
  "focusedElementBeforeOpen (close (open_lightbox gallery3 0 fresh)) = Some (PageElement 0)"
  by (simp add: close_fields open_fields fresh_def constructor_def)

text \<open>
  C6, amended. \<open>close()\<close> leaves the stored prior-focus reference as it was: it marks
  the viewer closed, moves the focus to the referenced element when there is one and it
  can take focus, leaves the focus alone when the reference is null, and does not reset
  the reference.
\<close>

theorem close_retains_reference:
  "focusedElementBeforeOpen (close s) = focusedElementBeforeOpen s
   \<and> \<not> isOpen (close s)
   \<and> (\<forall>e. focusedElementBeforeOpen s = Some e \<and> can_focus s e \<longrightarrow>
          activeElement (close s) = Some e)
   \<and> (focusedElementBeforeOpen s = None \<longrightarrow> activeElement (close s) = activeElement s)"
  by (simp add: close_fields close_activeElement)

theorem close_retains_reference_witness:
  "focusedElementBeforeOpen (open_lightbox gallery3 0 fresh) = Some (PageElement 0)
   \<and> can_focus (open_lightbox gallery3 0 fresh) (PageElement 0)
   \<and> focusedElementBeforeOpen (close (open_lightbox gallery3 0 fresh)) = Some (PageElement 0)
   \<and> activeElement (close (open_lightbox gallery3 0 fresh)) = Some (PageElement 0)
   \<and> focusedElementBeforeOpen (constructor (Some CloseBtn) []) = None
   \<and> activeElement (close (constructor (Some CloseBtn) [])) = Some CloseBtn"
  using close_retains_reference [of "open_lightbox gallery3 0 fresh"]
    close_retains_reference [of "constructor (Some CloseBtn) []"]
  by (simp add: open_fields can_focus_def fresh_def constructor_def)

text \<open>
  C9. \<open>open\<close> overwrites the prior-focus reference with whatever holds the focus at the
  call and then focuses the close button. Opening twice in a row therefore stores the close
  button as the reference, and the following \<open>close()\<close> leaves the focus on the close
  button, not on the element that held it before the first \<open>open\<close>.
\<close>

theorem reopen_overwrites_prior_focus:
  "focusedElementBeforeOpen (open_lightbox imgs i s) = activeElement s
   \<and> activeElement (open_lightbox imgs i s) = Some CloseBtn
   \<and> focusedElementBeforeOpen (open_lightbox imgs2 j (open_lightbox imgs i s)) = Some CloseBtn
   \<and> activeElement (close (open_lightbox imgs2 j (open_lightbox imgs i s))) = Some CloseBtn
   \<and> (activeElement s \<noteq> Some CloseBtn \<longrightarrow>
        activeElement (close (open_lightbox imgs2 j (open_lightbox imgs i s))) \<noteq> activeElement s)"
  by (simp add: open_fields close_activeElement can_focus_def)

theorem reopen_overwrites_prior_focus_witness:
  "activeElement fresh = Some (PageElement 0)
   \<and> activeElement fresh \<noteq> Some CloseBtn
   \<and> focusedElementBeforeOpen (open_lightbox gallery1 0 (open_lightbox gallery3 1 fresh))
       = Some CloseBtn
   \<and> activeElement (close (open_lightbox gallery1 0 (open_lightbox gallery3 1 fresh)))
       = Some CloseBtn
   \<and> activeElement (close (open_lightbox gallery1 0 (open_lightbox gallery3 1 fresh)))
       \<noteq> Some (PageElement 0)"
  using reopen_overwrites_prior_focus [of gallery3 1 fresh gallery1 0]
  by (simp add: fresh_def constructor_def)

section \<open>Announcements\<close>

lemma updateImage_liveRegion:
  assumes "0 \<le> currentIndex s" "currentIndex s < int (length (images s))"
  shows "liveRegion (updateImage s) =
           Some (spec_status (currentIndex s) (length (images s))
                   (alt (images s ! nat (currentIndex s))))"
  using assms
  by (simp add: updateImage_def js_index_def announce_liveRegion spec_status_def or_else_def)

lemma open_liveRegion:
  assumes "0 \<le> i" "i < int (length imgs)"
  shows "liveRegion (open_lightbox imgs i s) =
           Some (spec_status i (length imgs) (alt (imgs ! nat i)))"
  using assms
  by (simp add: open_lightbox_def Let_def updateNavVisibility_def focus_frame
      updateImage_liveRegion)

lemma next_liveRegion:
  assumes "2 \<le> length (images s)" "0 \<le> currentIndex (next_lightbox s)"
    "currentIndex (next_lightbox s) < int (length (images s))"
  shows "liveRegion (next_lightbox s) =
           Some (spec_status (currentIndex (next_lightbox s)) (length (images s))
                   (alt (images s ! nat (currentIndex (next_lightbox s)))))"
proof -
  let ?t = "s\<lparr>currentIndex := js_rem (currentIndex s + 1) (int (length (images s)))\<rparr>"
  have eq: "next_lightbox s = updateImage ?t"
    using assms(1) by (simp add: next_lightbox_def)
  have ci: "currentIndex (next_lightbox s) = currentIndex ?t"
    unfolding eq by (simp add: updateImage_frame)
  have "liveRegion (updateImage ?t) =
           Some (spec_status (currentIndex ?t) (length (images ?t))
                   (alt (images ?t ! nat (currentIndex ?t))))"
    using assms(2,3) unfolding ci by (intro updateImage_liveRegion) simp_all
  then show ?thesis unfolding ci unfolding eq by simp
qed

lemma prev_liveRegion:
  assumes "2 \<le> length (images s)" "0 \<le> currentIndex (prev s)"
    "currentIndex (prev s) < int (length (images s))"
  shows "liveRegion (prev s) =
           Some (spec_status (currentIndex (prev s)) (length (images s))
                   (alt (images s ! nat (currentIndex (prev s)))))"
proof -
  let ?t = "s\<lparr>currentIndex :=
                js_rem (currentIndex s - 1 + int (length (images s))) (int (length (images s)))\<rparr>"
  have eq: "prev s = updateImage ?t"
    using assms(1) by (simp add: prev_def)
  have ci: "currentIndex (prev s) = currentIndex ?t"
    unfolding eq by (simp add: updateImage_frame)
  have "liveRegion (updateImage ?t) =
           Some (spec_status (currentIndex ?t) (length (images ?t))
                   (alt (images ?t ! nat (currentIndex ?t))))"
    using assms(2,3) unfolding ci by (intro updateImage_liveRegion) simp_all
  then show ?thesis unfolding ci unfolding eq by simp
qed

text \<open>
  C8. Every render at a valid index (by \<open>updateImage\<close> itself, and so by \<open>open\<close>,
  \<open>next\<close> and \<open>prev\<close> whenever the index they render is valid) leaves in the live region
  exactly the text \<open>Image {currentIndex+1} of {images.length}: {alt or 'No description'}\<close>.
  There is one live region, created by the first announcement; an announcement sets its
  text to the message whatever the text was before.
\<close>

theorem render_announces:
  "(0 \<le> currentIndex s \<and> currentIndex s < int (length (images s)) \<longrightarrow>
      liveRegion (updateImage s) =
        Some (spec_status (currentIndex s) (length (images s))
               (alt (images s ! nat (currentIndex s)))))
   \<and> (0 \<le> i \<and> i < int (length imgs) \<longrightarrow>
      liveRegion (open_lightbox imgs i s) =
        Some (spec_status i (length imgs) (alt (imgs ! nat i))))
   \<and> (2 \<le> length (images s) \<and> 0 \<le> currentIndex (next_lightbox s)
        \<and> currentIndex (next_lightbox s) < int (length (images s)) \<longrightarrow>
      liveRegion (next_lightbox s) =
        Some (spec_status (currentIndex (next_lightbox s)) (length (images s))
               (alt (images s ! nat (currentIndex (next_lightbox s))))))
   \<and> (2 \<le> length (images s) \<and> 0 \<le> currentIndex (prev s)
        \<and> currentIndex (prev s) < int (length (images s)) \<longrightarrow>
      liveRegion (prev s) =
        Some (spec_status (currentIndex (prev s)) (length (images s))
               (alt (images s ! nat (currentIndex (prev s))))))
   \<and> liveRegion (announce m s) = Some m
   \<and> liveRegion (constructor a d) = None"
  using updateImage_liveRegion [of s] open_liveRegion [of i imgs s] next_liveRegion [of s]
    prev_liveRegion [of s] announce_liveRegion [of m s]
  by (simp add: constructor_def)

theorem render_announces_witness:
  "0 \<le> currentIndex (open_lightbox gallery3 1 fresh)
   \<and> currentIndex (open_lightbox gallery3 1 fresh)
       < int (length (images (open_lightbox gallery3 1 fresh)))
   \<and> 2 \<le> length (images (open_lightbox gallery3 1 fresh))
   \<and> liveRegion (open_lightbox gallery3 1 fresh) = Some ''Image 2 of 3: B''
   \<and> liveRegion (next_lightbox (open_lightbox gallery3 1 fresh)) = Some ''Image 3 of 3: C''
   \<and> liveRegion (prev (open_lightbox gallery3 1 fresh)) = Some ''Image 1 of 3: A''
   \<and> liveRegion (updateImage (open_lightbox gallery3 1 fresh)) = Some ''Image 2 of 3: B''"
  using render_announces [of fresh 1 gallery3]
    render_announces [of "open_lightbox gallery3 1 fresh"]
  by (simp add: open_fields next_fields prev_fields js_rem_def gallery3_def spec_status_def
      toString_def string_of_nat.simps)

end
